theory Spec2Isabelle
  imports Main "HOL-Library.Multiset" "HOL-Library.Product_Lexorder"
begin

section \<open>LocalDaypoTest: the bank decoder and the session engine of local\_daypo.py\<close>

text \<open>
  The model follows \<^verbatim>\<open>src/local_daypo.py\<close>. Python's unbounded integers are \<open>int\<close>,
  strings are \<open>string\<close> (one \<open>char\<close> per code point, code points below 256), \<open>None\<close>
  is \<open>None\<close> of an option type. An exception that the source does not catch is the
  \<open>Inl\<close> of a result; an exception that the source catches and reports in a message box
  leaves the state as the source leaves it. Field names that are Isar keywords carry a
  prefix (\<open>q_text\<close> for \<^verbatim>\<open>text\<close>, \<open>q_type\<close> for \<^verbatim>\<open>type\<close>).
\<close>

subsection \<open>Model: Question and Test\<close>

datatype q_kind = Single | Multiple | Ordering

record question =
  q_text :: string
  q_type :: q_kind
  options :: "string list"
  correct_indices :: "int list"
  image_data :: "string option"
  user_answer_indices :: "int list"
  user_input :: "int list"
  is_answered :: bool
  is_correct :: "bool option"

definition Question :: "string \<Rightarrow> q_kind \<Rightarrow> string list \<Rightarrow> int list \<Rightarrow> string option \<Rightarrow> question" where
  \<comment> \<open>\<^verbatim>\<open>Question.__init__\<close>: the four answer fields start unanswered.\<close>
  "Question t k opts corr img =
     \<lparr>q_text = t, q_type = k, options = opts, correct_indices = corr, image_data = img,
      user_answer_indices = [], user_input = [], is_answered = False, is_correct = None\<rparr>"

record test =
  questions :: "question list"
  current_question_index :: int
  title :: string

definition new_Test :: test where
  \<comment> \<open>\<^verbatim>\<open>Test.__init__\<close>\<close>
  "new_Test = \<lparr>questions = [], current_question_index = 0, title = ''Practice Test''\<rparr>"

definition num_correct :: "test \<Rightarrow> nat" where
  "num_correct t = length (filter (\<lambda>q. is_correct q = Some True) (questions t))"

definition num_incorrect :: "test \<Rightarrow> nat" where
  "num_incorrect t = length (filter (\<lambda>q. is_correct q = Some False) (questions t))"

definition num_answered :: "test \<Rightarrow> nat" where
  "num_answered t = length (filter is_answered (questions t))"

subsection \<open>Progress snapshot\<close>

text \<open>
  \<^verbatim>\<open>to_dict\<close> writes a dict of five keys; \<^verbatim>\<open>from_dict\<close> reads each of the four answer
  keys with \<^verbatim>\<open>data.get(key, default)\<close>, and the resume code reads \<^verbatim>\<open>q['text']\<close>, which
  raises KeyError when the key is missing. A key that may be missing is an option field.
  For \<^verbatim>\<open>is_correct\<close> a missing key and a stored \<^verbatim>\<open>null\<close> both read as \<open>None\<close>.
\<close>

record saved_question =
  sq_text :: "string option"
  sq_user_answer_indices :: "int list option"
  sq_user_input :: "int list option"
  sq_is_answered :: "bool option"
  sq_is_correct :: "bool option"

record progress_data =
  pd_current_question_index :: "int option"
  pd_questions :: "saved_question list option"

datatype progress_content = Corrupt | Json progress_data

definition to_dict :: "question \<Rightarrow> saved_question" where
  "to_dict q =
     \<lparr>sq_text = Some (q_text q),
      sq_user_answer_indices = Some (user_answer_indices q),
      sq_user_input = Some (user_input q),
      sq_is_answered = Some (is_answered q),
      sq_is_correct = is_correct q\<rparr>"

definition from_dict :: "question \<Rightarrow> saved_question \<Rightarrow> question" where
  "from_dict q d =
     q\<lparr>user_answer_indices := (case sq_user_answer_indices d of Some v \<Rightarrow> v | None \<Rightarrow> []),
       user_input := (case sq_user_input d of Some v \<Rightarrow> v | None \<Rightarrow> []),
       is_answered := (case sq_is_answered d of Some v \<Rightarrow> v | None \<Rightarrow> False),
       is_correct := sq_is_correct d\<rparr>"

subsection \<open>Controller: the session engine\<close>

record controller =
  test :: test
  test_file :: "string option"
  progress_file :: "string option"

definition new_TestController :: controller where
  "new_TestController = \<lparr>test = new_Test, test_file = None, progress_file = None\<rparr>"

definition get_current_question :: "controller \<Rightarrow> question option" where
  \<comment> \<open>A \<^verbatim>\<open>Test\<close> object is always truthy, so only the range check decides.\<close>
  "get_current_question c =
     (let i = current_question_index (test c); qs = questions (test c)
      in if 0 \<le> i \<and> i < int (length qs) then Some (qs ! nat i) else None)"

definition evaluate_answer :: "controller \<Rightarrow> int list \<Rightarrow> int list option \<Rightarrow> controller \<times> bool option" where
  \<comment> \<open>The current question object is mutated in place: here, replaced at the cursor.\<close>
  "evaluate_answer c user_answer user_raw_input =
     (case get_current_question c of
        None \<Rightarrow> (c, None)
      | Some question \<Rightarrow>
          (let verdict =
                 (if q_type question = Ordering
                  then user_answer = correct_indices question
                  else sort user_answer = sort (correct_indices question));
               question' = question
                 \<lparr>user_answer_indices := user_answer,
                  user_input := (case user_raw_input of Some r \<Rightarrow> r | None \<Rightarrow> user_answer),
                  is_answered := True,
                  is_correct := Some verdict\<rparr>;
               t = test c
           in (c\<lparr>test := t\<lparr>questions :=
                     (questions t)[nat (current_question_index t) := question']\<rparr>\<rparr>,
               Some verdict)))"

definition next_question :: "controller \<Rightarrow> controller \<times> bool" where
  "next_question c =
     (let t = test c
      in if current_question_index t < int (length (questions t)) - 1
         then (c\<lparr>test := t\<lparr>current_question_index := current_question_index t + 1\<rparr>\<rparr>, True)
         else (c, False))"

definition previous_question :: "controller \<Rightarrow> controller \<times> bool" where
  "previous_question c =
     (let t = test c
      in if current_question_index t > 0
         then (c\<lparr>test := t\<lparr>current_question_index := current_question_index t - 1\<rparr>\<rparr>, True)
         else (c, False))"

subsection \<open>Persistence\<close>

text \<open>
  The progress files are a map from file name to content. \<open>Corrupt\<close> is a file on which
  \<^verbatim>\<open>json.load\<close> raises JSONDecodeError; \<open>Json d\<close> is a file holding a JSON object, read back
  as the value that \<^verbatim>\<open>json.dump\<close> was given (strings, integers, booleans and \<^verbatim>\<open>null\<close>
  survive the trip through JSON unchanged).
\<close>

type_synonym progress_store = "string \<rightharpoonup> progress_content"

definition save_progress :: "controller \<Rightarrow> progress_store \<Rightarrow> progress_store" where
  "save_progress c fs =
     (case progress_file c of
        None \<Rightarrow> fs
      | Some pf \<Rightarrow>
          if pf = [] then fs
          else fs(pf \<mapsto> Json
                 \<lparr>pd_current_question_index = Some (current_question_index (test c)),
                  pd_questions = Some (map to_dict (questions (test c)))\<rparr>))"

fun saved_questions_map :: "saved_question list \<Rightarrow> (string \<rightharpoonup> saved_question) option" where
  \<comment> \<open>\<^verbatim>\<open>{q['text']: q for q in ...}\<close>: a later entry replaces an earlier one of the same
      text; \<open>None\<close> is the KeyError of an entry without \<^verbatim>\<open>text\<close>.\<close>
  "saved_questions_map [] = Some Map.empty"
| "saved_questions_map (q # qs) =
     (case sq_text q of
        None \<Rightarrow> None
      | Some t \<Rightarrow>
          (case saved_questions_map qs of
             None \<Rightarrow> None
           | Some m \<Rightarrow> Some (case m t of Some later \<Rightarrow> m | None \<Rightarrow> m(t \<mapsto> q))))"

definition check_and_load_progress :: "progress_store \<Rightarrow> bool \<Rightarrow> controller \<Rightarrow> controller" where
  \<comment> \<open>\<open>yes\<close> is the user's answer to the resume dialog. JSONDecodeError and KeyError are
      caught by the source and shown in a message box: they are raised before any question
      is touched, so the controller is unchanged.\<close>
  "check_and_load_progress fs yes c =
     (case progress_file c of
        None \<Rightarrow> c
      | Some pf \<Rightarrow>
          if pf = [] then c
          else (case fs pf of
             None \<Rightarrow> c
           | Some content \<Rightarrow>
               if \<not> yes then c
               else (case content of
                  Corrupt \<Rightarrow> c
                | Json progress \<Rightarrow>
                    (case pd_questions progress of
                       None \<Rightarrow> c
                     | Some sqs \<Rightarrow>
                         (case saved_questions_map sqs of
                            None \<Rightarrow> c
                          | Some m \<Rightarrow>
                              c\<lparr>test := (test c)
                                \<lparr>questions :=
                                   map (\<lambda>q_obj. case m (q_text q_obj) of
                                                   Some d \<Rightarrow> from_dict q_obj d
                                                 | None \<Rightarrow> q_obj)
                                       (questions (test c)),
                                 current_question_index :=
                                   (case pd_current_question_index progress of
                                      Some i \<Rightarrow> i | None \<Rightarrow> 0)\<rparr>\<rparr>)))))"

subsection \<open>The parsed bank: ElementTree elements\<close>

text \<open>
  An element as \<^verbatim>\<open>xml.etree.ElementTree\<close> builds it: tag, attributes, the text before
  the first child, the text after the end tag (tail) and the children. The parser writes
  the tag of a namespace-qualified element as \<^verbatim>\<open>{uri}local\<close>. Absent text is \<open>None\<close>.
\<close>

datatype element =
  Element (el_tag: string) (el_attrib: "(string \<times> string) list")
          (el_text: "string option") (el_tail: "string option") (el_children: "element list")

definition el_get :: "element \<Rightarrow> string \<Rightarrow> string option" where
  "el_get e k = map_of (el_attrib e) k"

fun iter :: "element \<Rightarrow> element list" where
  \<comment> \<open>\<^verbatim>\<open>Element.iter()\<close>: the element and its descendants in document order.\<close>
  "iter (Element t a x ta cs) = Element t a x ta cs # concat (map iter cs)"

definition el_findall :: "element \<Rightarrow> string \<Rightarrow> element list" where
  \<comment> \<open>\<^verbatim>\<open>e.findall('tag')\<close>: the children whose tag is equal to the given one.\<close>
  "el_findall e tg = filter (\<lambda>ch. el_tag ch = tg) (el_children e)"

definition el_find :: "element \<Rightarrow> string \<Rightarrow> element option" where
  "el_find e tg = (case el_findall e tg of [] \<Rightarrow> None | x # _ \<Rightarrow> Some x)"

definition el_findall_desc :: "element \<Rightarrow> string \<Rightarrow> string \<Rightarrow> element list" where
  \<comment> \<open>\<^verbatim>\<open>e.findall('.//a/b')\<close>: for every proper descendant tagged \<open>a\<close>, in document order,
      its children tagged \<open>b\<close>.\<close>
  "el_findall_desc e a b =
     concat (map (\<lambda>d. el_findall d b)
                 (filter (\<lambda>d. el_tag d = a) (concat (map iter (el_children e)))))"

definition el_find_desc :: "element \<Rightarrow> string \<Rightarrow> string \<Rightarrow> element option" where
  "el_find_desc e a b = (case el_findall_desc e a b of [] \<Rightarrow> None | x # _ \<Rightarrow> Some x)"

fun itertext :: "element \<Rightarrow> string" where
  \<comment> \<open>\<^verbatim>\<open>"".join(e.itertext())\<close>: the text of the element, then for every child its own
      text content followed by its tail.\<close>
  "itertext (Element t a x ta cs) =
     (case x of Some s \<Rightarrow> s | None \<Rightarrow> []) @
     concat (map (\<lambda>ch. itertext ch @ (case el_tail ch of Some s \<Rightarrow> s | None \<Rightarrow> [])) cs)"

fun strip_namespaces :: "element \<Rightarrow> element" where
  \<comment> \<open>The loop over \<^verbatim>\<open>ET.iterparse\<close>: every tag containing \<^verbatim>\<open>}\<close> is cut after its first
      \<^verbatim>\<open>}\<close> (\<^verbatim>\<open>el.tag.split('}', 1)[1]\<close>).\<close>
  "strip_namespaces (Element t a x ta cs) =
     Element (if CHR ''}'' \<in> set t then tl (dropWhile (\<lambda>ch. ch \<noteq> CHR ''}'') t) else t)
             a x ta (map strip_namespaces cs)"

subsection \<open>Python string functions used by the decoder\<close>

definition py_enumerate :: "'a list \<Rightarrow> (int \<times> 'a) list" where
  \<comment> \<open>\<^verbatim>\<open>enumerate(xs)\<close>\<close>
  "py_enumerate xs = zip (map int [0..<length xs]) xs"

definition isspace :: "char \<Rightarrow> bool" where
  \<comment> \<open>\<^verbatim>\<open>str.isspace\<close> on the code points below 256.\<close>
  "isspace ch = (of_char ch \<in> set [9, 10, 11, 12, 13, 28, 29, 30, 31, 32, 133, 160 :: nat])"

definition strip :: "string \<Rightarrow> string" where
  "strip s = rev (dropWhile isspace (rev (dropWhile isspace s)))"

fun split_ws :: "string \<Rightarrow> string list" where
  \<comment> \<open>\<^verbatim>\<open>str.split()\<close> without argument: the maximal runs of non-whitespace.\<close>
  "split_ws [] = []"
| "split_ws (ch # s) =
     (if isspace ch then split_ws s
      else (case split_ws s of
              [] \<Rightarrow> [[ch]]
            | w # ws \<Rightarrow> (case s of
                           [] \<Rightarrow> [[ch]]
                         | ch' # _ \<Rightarrow> if isspace ch' then [ch] # w # ws else (ch # w) # ws)))"

fun wrap2 :: "string \<Rightarrow> string list" where
  \<comment> \<open>\<^verbatim>\<open>textwrap.wrap(s, 2)\<close> on a string without whitespace and without \<^verbatim>\<open>-\<close>: the
      string is one word, longer words are broken every two characters. Whitespace and
      hyphens make \<^verbatim>\<open>textwrap\<close> break elsewhere; such answer codes are outside this model.\<close>
  "wrap2 (a # b # s) = [a, b] # wrap2 s"
| "wrap2 [a] = [[a]]"
| "wrap2 [] = []"

definition isdigit :: "char \<Rightarrow> bool" where
  "isdigit ch = (48 \<le> (of_char ch :: nat) \<and> (of_char ch :: nat) \<le> 57)"

definition decimal :: "string \<Rightarrow> int" where
  "decimal s = foldl (\<lambda>n ch. 10 * n + (int (of_char ch) - 48)) 0 s"

datatype error = AttributeError | TypeError | ValueError
  \<comment> \<open>The exceptions that leave \<^verbatim>\<open>load_new_test_from_file\<close> uncaught: its handler
      catches FileNotFoundError and \<^verbatim>\<open>ET.ParseError\<close> only.\<close>

definition py_int :: "string \<Rightarrow> error + int" where
  \<comment> \<open>\<^verbatim>\<open>int(p)\<close> on a string of at most two characters: surrounding whitespace is
      ignored, then an optional sign and decimal digits; anything else is a ValueError.\<close>
  "py_int p =
     (let s = strip p;
          digits = (\<lambda>d. d \<noteq> [] \<and> list_all isdigit d)
      in case s of
           [] \<Rightarrow> Inl ValueError
         | ch # r \<Rightarrow>
             if ch = CHR ''+'' \<and> digits r then Inr (decimal r)
             else if ch = CHR ''-'' \<and> digits r then Inr (- decimal r)
             else if digits s then Inr (decimal s)
             else Inl ValueError)"

subsection \<open>Decoder: \<^verbatim>\<open>load_new_test_from_file\<close>\<close>

type_synonym images = "string \<rightharpoonup> string"

definition split_comma :: "string \<Rightarrow> (string \<times> string) option" where
  \<comment> \<open>\<^verbatim>\<open>_, data = s.split(',', 1)\<close>: \<open>None\<close> is the ValueError of a string without comma.\<close>
  "split_comma s =
     (if CHR '','' \<in> set s
      then Some (takeWhile (\<lambda>ch. ch \<noteq> CHR '','') s, tl (dropWhile (\<lambda>ch. ch \<noteq> CHR '','') s))
      else None)"

fun load_images :: "(string \<Rightarrow> string option) \<Rightarrow> element list \<Rightarrow> images \<Rightarrow> images" where
  \<comment> \<open>The loop over the image nodes. \<open>b64decode\<close> is \<^verbatim>\<open>base64.b64decode\<close>, \<open>None\<close> where it
      raises; the source catches that and the ValueError of a missing comma and goes on.\<close>
  "load_images b64decode [] images_data = images_data"
| "load_images b64decode (img_node # rest) images_data =
     load_images b64decode rest
       (case (el_get img_node ''p'', el_text img_node) of
          (Some img_key, Some base64_full_string) \<Rightarrow>
            if img_key \<noteq> [] \<and> base64_full_string \<noteq> [] then
              (case split_comma base64_full_string of
                 None \<Rightarrow> images_data
               | Some (_, base64_data) \<Rightarrow>
                   (case b64decode base64_data of
                      None \<Rightarrow> images_data
                    | Some image_bytes \<Rightarrow> images_data(img_key \<mapsto> image_bytes)))
            else images_data
        | _ \<Rightarrow> images_data)"

fun answer_positions :: "nat \<Rightarrow> string list \<Rightarrow> error + int list" where
  \<comment> \<open>\<^verbatim>\<open>[int(p) if p != '00' else num_options for p in answer_positions_str]\<close>\<close>
  "answer_positions num_options [] = Inr []"
| "answer_positions num_options (p # ps) =
     (case (if p \<noteq> ''00'' then py_int p else Inr (int num_options)) of
        Inl e \<Rightarrow> Inl e
      | Inr v \<Rightarrow> (case answer_positions num_options ps of
                   Inl e \<Rightarrow> Inl e
                 | Inr vs \<Rightarrow> Inr (v # vs)))"

definition decode_ordering :: "string list \<Rightarrow> string option \<Rightarrow> error + string list \<times> int list" where
  \<comment> \<open>The branch of type code \<^verbatim>\<open>'6'\<close>: the options after the re-split and the correct
      permutation. \<^verbatim>\<open>textwrap.wrap(None, 2)\<close> raises AttributeError.\<close>
  "decode_ordering options0 answer_code =
     (let options1 = (if length options0 = 1 \<and> CHR '' '' \<in> set (options0 ! 0)
                      then split_ws (options0 ! 0) else options0);
          num_options = length options1
      in case answer_code of
           None \<Rightarrow> Inl AttributeError
         | Some code \<Rightarrow>
             (case answer_positions num_options (wrap2 code) of
                Inl e \<Rightarrow> Inl e
              | Inr positions \<Rightarrow>
                  (let sorted_options =
                         sort (map (\<lambda>(i, pos). (pos, i))
                                 (filter (\<lambda>(i, pos). i < int num_options) (py_enumerate positions)))
                   in Inr (options1, map snd sorted_options))))"

definition decode_choice :: "string option \<Rightarrow> error + q_kind \<times> int list" where
  \<comment> \<open>The branch of type code \<^verbatim>\<open>'1'\<close>. \<^verbatim>\<open>enumerate(None)\<close> raises TypeError.\<close>
  "decode_choice answer_code =
     (case answer_code of
        None \<Rightarrow> Inl TypeError
      | Some code \<Rightarrow>
          (let correct = map fst (filter (\<lambda>(i, ch). ch = CHR ''2'') (py_enumerate code))
           in Inr (if length correct = 1 then Single else Multiple, correct)))"

definition decode_question_node :: "images \<Rightarrow> element \<Rightarrow> error + question option" where
  \<comment> \<open>The body of the loop over the question nodes: \<open>Inr None\<close> is a node that adds no
      question (\<^verbatim>\<open>continue\<close>, or the final test fails), \<open>Inr (Some q)\<close> the appended one.\<close>
  "decode_question_node images_data question_node =
     (case el_find question_node ''t'' of
        None \<Rightarrow> Inr None
      | Some question_type_tag \<Rightarrow>
     (case el_text question_type_tag of
        None \<Rightarrow> Inr None
      | Some q_type_code \<Rightarrow>
     (case el_find question_node ''p'' of
        None \<Rightarrow> Inr None
      | Some p_tag \<Rightarrow>
          (let qtext = strip (itertext p_tag);
               img_ref = (case el_find question_node ''b'' of
                            Some img_ref_node \<Rightarrow> el_get img_ref_node ''p'' | None \<Rightarrow> None);
               question_image_data =
                 (case img_ref of
                    Some r \<Rightarrow> if r \<noteq> [] then images_data r else None
                  | None \<Rightarrow> None);
               options0 = map (\<lambda>opt. case el_text opt of Some s \<Rightarrow> strip s | None \<Rightarrow> [])
                              (el_findall_desc question_node ''r'' ''o'')
           in case el_find question_node ''c'' of
                None \<Rightarrow> Inl AttributeError
              | Some c_tag \<Rightarrow>
                  (let answer_code = el_text c_tag
                   in if q_type_code = ''1'' then
                        (case decode_choice answer_code of
                           Inl e \<Rightarrow> Inl e
                         | Inr (kind, correct) \<Rightarrow>
                             Inr (if options0 \<noteq> [] \<and> correct \<noteq> []
                                  then Some (Question qtext kind options0 correct question_image_data)
                                  else None))
                      else if q_type_code = ''6'' then
                        (case decode_ordering options0 answer_code of
                           Inl e \<Rightarrow> Inl e
                         | Inr (options1, correct) \<Rightarrow>
                             Inr (if options1 \<noteq> [] \<and> correct \<noteq> []
                                  then Some (Question qtext Ordering options1 correct question_image_data)
                                  else None))
                      else Inr None)))))"

fun decode_question_nodes :: "images \<Rightarrow> element list \<Rightarrow> error + question list" where
  \<comment> \<open>The loop: the first exception ends it.\<close>
  "decode_question_nodes images_data [] = Inr []"
| "decode_question_nodes images_data (question_node # rest) =
     (case decode_question_node images_data question_node of
        Inl e \<Rightarrow> Inl e
      | Inr r \<Rightarrow>
          (case decode_question_nodes images_data rest of
             Inl e \<Rightarrow> Inl e
           | Inr qs \<Rightarrow> Inr (case r of Some q \<Rightarrow> q # qs | None \<Rightarrow> qs)))"

datatype xml_source = Malformed | Document element

datatype load_result = Loaded test | Load_Error string

definition decode_root :: "(string \<Rightarrow> string option) \<Rightarrow> element \<Rightarrow> error + load_result" where
  \<comment> \<open>Lines 79 to 148, on the element that \<^verbatim>\<open>ET.fromstring\<close> returned. \<open>Load_Error\<close> is a
      message box (with its fixed text) followed by \<^verbatim>\<open>return False\<close>; \<open>Inl\<close> is an
      exception raised on the way.\<close>
  "decode_root b64decode root =
     (case el_find_desc root ''p'' ''t'' of
        None \<Rightarrow> Inl AttributeError
      | Some title_node \<Rightarrow>
          (let new_title = (case el_text title_node of
                              Some s \<Rightarrow> if s \<noteq> [] then s else ''Practice Test''
                            | None \<Rightarrow> ''Practice Test'');
               images_data = (case el_find root ''i'' of
                                Some image_container \<Rightarrow>
                                  load_images b64decode (el_findall image_container ''i'') Map.empty
                              | None \<Rightarrow> Map.empty)
           in case el_find root ''c'' of
                None \<Rightarrow> Inr (Load_Error
                  ''Invalid test format: No main question container (<c>) found.'')
              | Some question_container \<Rightarrow>
                  (case decode_question_nodes images_data (el_findall question_container ''c'') of
                     Inl e \<Rightarrow> Inl e
                   | Inr qs \<Rightarrow>
                       if qs = []
                       then Inr (Load_Error ''This XML file does not contain any valid questions.'')
                       else Inr (Loaded \<lparr>questions = qs, current_question_index = 0,
                                         title = new_title\<rparr>))))"

definition decode :: "(string \<Rightarrow> string option) \<Rightarrow> xml_source option \<Rightarrow> error + load_result" where
  \<comment> \<open>Lines 69 to 148 and the handler of lines 160 to 162. The argument is what the file
      holds: \<open>None\<close> when there is no such file, \<open>Malformed\<close> when the XML parser rejects
      it, otherwise the parsed document. The first parse (\<^verbatim>\<open>ET.iterparse\<close>) builds a tree
      \<open>it\<close> whose tags the loop rewrites; \<open>root\<close> comes from a second parse of the same
      string (\<^verbatim>\<open>ET.fromstring\<close>), which the loop has not touched.\<close>
  "decode b64decode src =
     (case src of
        None \<Rightarrow> Inr (Load_Error ''Error loading test file: '')
      | Some Malformed \<Rightarrow> Inr (Load_Error ''Error loading test file: '')
      | Some (Document doc) \<Rightarrow>
          (let it = strip_namespaces doc;
               root = doc
           in decode_root b64decode root))"

definition basename :: "string \<Rightarrow> string" where
  \<comment> \<open>\<^verbatim>\<open>os.path.basename\<close> (POSIX): what follows the last \<^verbatim>\<open>/\<close>.\<close>
  "basename path = rev (takeWhile (\<lambda>ch. ch \<noteq> CHR ''/'') (rev path))"

definition splitext_root :: "string \<Rightarrow> string" where
  \<comment> \<open>\<^verbatim>\<open>os.path.splitext(b)[0]\<close> of a base name: what precedes the last dot, unless only
      dots precede it.\<close>
  "splitext_root b =
     (if CHR ''.'' \<in> set b
      then (let stem = rev (tl (dropWhile (\<lambda>ch. ch \<noteq> CHR ''.'') (rev b)))
            in if list_ex (\<lambda>ch. ch \<noteq> CHR ''.'') stem then stem else b)
      else b)"

definition load_new_test_from_file ::
  "(string \<Rightarrow> string option) \<Rightarrow> (string \<rightharpoonup> xml_source) \<Rightarrow> progress_store \<Rightarrow> bool \<Rightarrow>
   controller \<Rightarrow> string \<Rightarrow> error + controller \<times> bool" where
  \<comment> \<open>\<open>files\<close> are the bank files by path, \<open>fs\<close> the progress files, \<open>yes\<close> the answer to
      the resume dialog. A load that returns \<^verbatim>\<open>False\<close> leaves the controller as it was.\<close>
  "load_new_test_from_file b64decode files fs yes c filepath =
     (case decode b64decode (files filepath) of
        Inl e \<Rightarrow> Inl e
      | Inr (Load_Error msg) \<Rightarrow> Inr (c, False)
      | Inr (Loaded new_test) \<Rightarrow>
          (let c' = c\<lparr>test := new_test, test_file := Some filepath,
                      progress_file := Some (splitext_root (basename filepath) @ ''.progress.json'')\<rparr>
           in Inr (check_and_load_progress fs yes c', True)))"

definition answer_state :: "question \<Rightarrow> int list \<times> int list \<times> bool \<times> bool option" where
  \<comment> \<open>The four answer fields of a question (the AnswerState of the specification).\<close>
  "answer_state q = (user_answer_indices q, user_input q, is_answered q, is_correct q)"

subsection \<open>View: what the submit handler and the retry do to the controller\<close>

text \<open>
  \<^verbatim>\<open>TestFrame.on_submit\<close> reads \<^verbatim>\<open>GetValue()\<close> of every answer control. The model takes
  these values as a list of integers, in the order of the controls: a spin control gives
  its number, a check box or radio button gives \<^verbatim>\<open>True\<close> or \<^verbatim>\<open>False\<close>, which Python
  counts as 1 and 0. \<^verbatim>\<open>update_view\<close> builds one control per option of the current
  question. The second component of the result is the text of the message box shown.
\<close>

definition on_submit :: "controller \<Rightarrow> int list \<Rightarrow> controller \<times> string option" where
  "on_submit c control_values =
     (case get_current_question c of
        None \<Rightarrow> (c, None)
      | Some question \<Rightarrow>
          if q_type question = Ordering then
            (let user_input_values = control_values
             in if length (remdups user_input_values) \<noteq> length (options question)
                then (c, Some ''Each item must have a unique order number.'')
                else (let sorted_options = sort_key snd (py_enumerate user_input_values);
                          user_indices = map fst sorted_options
                      in (fst (evaluate_answer c user_indices (Some user_input_values)), None)))
          else
            (let user_indices = map fst (filter (\<lambda>(i, v). v \<noteq> 0) (py_enumerate control_values))
             in (fst (evaluate_answer c user_indices None), None)))"


definition retry_incorrect :: "controller \<Rightarrow> question list \<Rightarrow> controller" where
  "retry_incorrect c incorrect_questions =
     c\<lparr>test := (test c)
       \<lparr>questions := map (\<lambda>q. q\<lparr>user_answer_indices := [], user_input := [],
                                  is_answered := False, is_correct := None\<rparr>)
                          incorrect_questions,
        current_question_index := 0\<rparr>\<rparr>"

subsection \<open>Sample values\<close>

definition controller_of :: "question list \<Rightarrow> int \<Rightarrow> controller" where
  \<comment> \<open>A controller after a load of \<^verbatim>\<open>bank.xml\<close>, holding the given questions and cursor.\<close>
  "controller_of qs i =
     \<lparr>test = \<lparr>questions = qs, current_question_index = i, title = ''Practice Test''\<rparr>,
      test_file = Some ''bank.xml'', progress_file = Some ''bank.progress.json''\<rparr>"

definition capital_question :: question where
  "capital_question =
     Question ''Capital of France?'' Single [''Paris'', ''London'', ''Rome''] [0] None"

definition order_question :: question where
  "order_question = Question ''Put in order'' Ordering [''A'', ''B'', ''C''] [1, 0, 2] None"

definition answered_capital :: question where
  \<comment> \<open>\<open>capital_question\<close> after the submission of the right answer.\<close>
  "answered_capital = capital_question\<lparr>user_answer_indices := [0], user_input := [0],
      is_answered := True, is_correct := Some True\<rparr>"

definition leaf :: "string \<Rightarrow> string \<Rightarrow> element" where
  \<comment> \<open>An element with text and nothing else: \<^verbatim>\<open><tg>s</tg>\<close>.\<close>
  "leaf tg s = Element tg [] (Some s) None []"

definition question_node :: "string \<Rightarrow> string \<Rightarrow> string list \<Rightarrow> string \<Rightarrow> element" where
  \<comment> \<open>\<^verbatim>\<open><c><t>code</t><p>prompt</p><r><o>..</o>..</r><c>answer</c></c>\<close>\<close>
  "question_node code prompt opts answer =
     Element ''c'' [] None None
       [leaf ''t'' code, leaf ''p'' prompt,
        Element ''r'' [] None None (map (leaf ''o'') opts), leaf ''c'' answer]"

definition sample_bank :: element where
  "sample_bank =
     Element ''d'' [] None None
       [Element ''p'' [] None None [leaf ''t'' ''Geography''],
        Element ''c'' [] None None
          [question_node ''1'' ''Capital of France?'' [''Paris'', ''London'', ''Rome''] ''211'']]"

fun qualify :: "string \<Rightarrow> element \<Rightarrow> element" where
  \<comment> \<open>The same document with every tag in the namespace \<open>uri\<close>, as the parser writes
      the tags of a document whose root declares \<^verbatim>\<open>xmlns="uri"\<close>.\<close>
  "qualify uri (Element t a x ta cs) =
     Element (CHR ''{'' # uri @ CHR ''}'' # t) a x ta (map (qualify uri) cs)"

definition untitled_bank :: element where
  \<comment> \<open>\<open>sample_bank\<close> without its title element.\<close>
  "untitled_bank =
     Element ''d'' [] None None
       [Element ''c'' [] None None
          [question_node ''1'' ''Capital of France?'' [''Paris'', ''London'', ''Rome''] ''211'']]"

definition empty_title_bank :: element where
  \<comment> \<open>\<open>sample_bank\<close> with an empty title element, \<^verbatim>\<open><p><t/></p>\<close>.\<close>
  "empty_title_bank =
     Element ''d'' [] None None
       [Element ''p'' [] None None [Element ''t'' [] None None []],
        Element ''c'' [] None None
          [question_node ''1'' ''Capital of France?'' [''Paris'', ''London'', ''Rome''] ''211'']]"

section \<open>Properties of the session engine\<close>

subsection \<open>Auxiliary facts\<close>

lemma get_current_question_SomeD:
  assumes "get_current_question c = Some q"
  shows "0 \<le> current_question_index (test c)"
    and "nat (current_question_index (test c)) < length (questions (test c))"
    and "q = questions (test c) ! nat (current_question_index (test c))"
  using assms by (auto simp: get_current_question_def Let_def split: if_splits)

lemma evaluate_answer_Some:
  assumes "get_current_question c = Some q"
  shows "snd (evaluate_answer c ua raw) =
           Some (if q_type q = Ordering then ua = correct_indices q
                 else sort ua = sort (correct_indices q))"
    and "get_current_question (fst (evaluate_answer c ua raw)) =
           Some (q\<lparr>user_answer_indices := ua,
                   user_input := (case raw of Some r \<Rightarrow> r | None \<Rightarrow> ua),
                   is_answered := True,
                   is_correct := snd (evaluate_answer c ua raw)\<rparr>)"
  using assms get_current_question_SomeD[OF assms]
  by (auto simp: evaluate_answer_def get_current_question_def Let_def)


lemma get_current_controller_of [simp]:
  "get_current_question (controller_of [q] 0) = Some q"
  by (simp add: controller_of_def get_current_question_def)

subsection \<open>Evaluation of a submission\<close>




text \<open>
  Claim C4. For a current question of kind Ordering the verdict is the equality of the
  submitted sequence and the correct permutation as lists, and this verdict is what is
  stored; a submission with the set of the correct indices in another sequence is
  incorrect.
\<close>

theorem evaluate_ordering_exact:
  assumes "get_current_question c = Some q" and "q_type q = Ordering"
  shows "snd (evaluate_answer c ua raw) = Some (ua = correct_indices q)
       \<and> get_current_question (fst (evaluate_answer c ua raw)) =
           Some (q\<lparr>user_answer_indices := ua,
                   user_input := (case raw of Some r \<Rightarrow> r | None \<Rightarrow> ua),
                   is_answered := True,
                   is_correct := Some (ua = correct_indices q)\<rparr>)
       \<and> (set ua = set (correct_indices q) \<and> ua \<noteq> correct_indices q \<longrightarrow>
            snd (evaluate_answer c ua raw) = Some False)"
  using evaluate_answer_Some[OF assms(1), of ua raw] assms(2) by simp

theorem evaluate_ordering_exact_witness:
  "get_current_question (controller_of [order_question] 0) = Some order_question
   \<and> q_type order_question = Ordering
   \<and> set [0, 1, 2] = set (correct_indices order_question)
   \<and> snd (evaluate_answer (controller_of [order_question] 0) [0, 1, 2] None) = Some False
   \<and> snd (evaluate_answer (controller_of [order_question] 0) [1, 0, 2] None) = Some True"
proof -
  have cur: "get_current_question (controller_of [order_question] 0) = Some order_question"
    by simp
  have ord: "q_type order_question = Ordering"
    by (simp add: order_question_def Question_def)
  have corr: "correct_indices order_question = [1, 0, 2]"
    by (simp add: order_question_def Question_def)
  show ?thesis
    using evaluate_ordering_exact[OF cur ord, of "[0, 1, 2]" None]
          evaluate_ordering_exact[OF cur ord, of "[1, 0, 2]" None] cur ord corr
    by auto
qed

subsection \<open>Submission through the view\<close>

lemma on_submit_ordering:
  assumes "get_current_question c = Some q" and "q_type q = Ordering"
    and "length vals = length (options q)"
  shows "on_submit c vals =
           (if distinct vals
            then (fst (evaluate_answer c (map fst (sort_key snd (py_enumerate vals))) (Some vals)), None)
            else (c, Some ''Each item must have a unique order number.''))"
proof -
  have "(length (remdups vals) = length vals) = distinct vals"
    by (simp add: length_remdups_eq remdups_id_iff_distinct)
  then show ?thesis
    using assms by (simp add: on_submit_def Let_def)
qed

text \<open>
  Claim C8. \<open>on_submit\<close> on a current question of kind Ordering, with one position number
  per option: when the numbers are not pairwise distinct, the submission is refused with
  the message box of the validation error and the controller is returned as it was; a
  following submission with pairwise distinct numbers is evaluated: the options' indices
  sorted by their numbers are stored as the answer, the numbers as the raw input, and
  the question is marked answered with the verdict of the comparison against the correct
  permutation.
\<close>

theorem ordering_duplicate_ranks_rejected:
  assumes cur: "get_current_question c = Some q" and ord: "q_type q = Ordering"
    and len: "length vals = length (options q)" and dup: "\<not> distinct vals"
    and len': "length vals' = length (options q)" and dist: "distinct vals'"
  shows "on_submit c vals = (c, Some ''Each item must have a unique order number.'')
       \<and> on_submit (fst (on_submit c vals)) vals' =
           (fst (evaluate_answer c (map fst (sort_key snd (py_enumerate vals'))) (Some vals')), None)
       \<and> get_current_question (fst (on_submit (fst (on_submit c vals)) vals')) =
           Some (q\<lparr>user_answer_indices := map fst (sort_key snd (py_enumerate vals')),
                   user_input := vals',
                   is_answered := True,
                   is_correct := Some (map fst (sort_key snd (py_enumerate vals')) = correct_indices q)\<rparr>)"
proof -
  have rej: "on_submit c vals = (c, Some ''Each item must have a unique order number.'')"
    using on_submit_ordering[OF cur ord len] dup by simp
  have acc: "on_submit c vals' =
      (fst (evaluate_answer c (map fst (sort_key snd (py_enumerate vals'))) (Some vals')), None)"
    using on_submit_ordering[OF cur ord len'] dist by simp
  show ?thesis
    using rej acc
      evaluate_answer_Some[OF cur, of "map fst (sort_key snd (py_enumerate vals'))" "Some vals'"] ord
    by simp
qed

theorem ordering_duplicate_ranks_rejected_witness:
  "on_submit (controller_of [order_question] 0) [1, 1, 3] =
     (controller_of [order_question] 0, Some ''Each item must have a unique order number.'')
   \<and> get_current_question
        (fst (on_submit (fst (on_submit (controller_of [order_question] 0) [1, 1, 3])) [2, 1, 3])) =
      Some (order_question\<lparr>user_answer_indices := [1, 0, 2], user_input := [2, 1, 3],
                            is_answered := True, is_correct := Some True\<rparr>)"
proof -
  have cur: "get_current_question (controller_of [order_question] 0) = Some order_question"
    by simp
  have ord: "q_type order_question = Ordering"
    by (simp add: order_question_def Question_def)
  have len: "length [1, 1, 3 :: int] = length (options order_question)"
    by (simp add: order_question_def Question_def)
  have len': "length [2, 1, 3 :: int] = length (options order_question)"
    by (simp add: order_question_def Question_def)
  have dup: "\<not> distinct [1, 1, 3 :: int]" by simp
  have dist: "distinct [2, 1, 3 :: int]" by simp
  have perm: "map fst (sort_key snd (py_enumerate [2, 1, 3 :: int])) = [1, 0, 2]"
    by (simp add: py_enumerate_def upt_rec)
  have corr: "correct_indices order_question = [1, 0, 2]"
    by (simp add: order_question_def Question_def)
  have eq: "([1, 0, 2 :: int] = [1, 0, 2]) = True" by simp
  show ?thesis
    using ordering_duplicate_ranks_rejected[OF cur ord len dup len' dist]
    unfolding perm corr eq by blast
qed




subsection \<open>Resuming from a progress file\<close>

lemma saved_questions_map_total:
  "list_all (\<lambda>s. sq_text s \<noteq> None) sqs \<Longrightarrow> \<exists>m. saved_questions_map sqs = Some m"
  by (induction sqs) auto

lemma check_and_load_progress_resume:
  assumes "progress_file c = Some pf" and "pf \<noteq> []" and "fs pf = Some (Json pd)"
    and "pd_questions pd = Some sqs" and "saved_questions_map sqs = Some m"
  shows "check_and_load_progress fs True c =
           c\<lparr>test := (test c)
             \<lparr>questions := map (\<lambda>q_obj. case m (q_text q_obj) of
                                           Some d \<Rightarrow> from_dict q_obj d | None \<Rightarrow> q_obj)
                                (questions (test c)),
              current_question_index :=
                (case pd_current_question_index pd of Some i \<Rightarrow> i | None \<Rightarrow> 0)\<rparr>\<rparr>"
  using assms by (simp add: check_and_load_progress_def)

text \<open>
  Claim C10. A load that decodes the bank and resumes from a stored progress file returns
  \<^verbatim>\<open>True\<close> with the cursor set to the stored index as it is, whatever the number of
  decoded questions; when that index is negative or not below the number of questions,
  \<open>get_current_question\<close> returns \<open>None\<close>.
\<close>

theorem resume_cursor_unchecked:
  assumes dec: "decode b64decode (files path) = Inr (Loaded t)"
    and stored: "fs (splitext_root (basename path) @ ''.progress.json'') = Some (Json pd)"
    and qs: "pd_questions pd = Some sqs"
    and texts: "list_all (\<lambda>s. sq_text s \<noteq> None) sqs"
    and k: "pd_current_question_index pd = Some k"
  shows "\<exists>c'. load_new_test_from_file b64decode files fs True c path = Inr (c', True)
            \<and> current_question_index (test c') = k
            \<and> length (questions (test c')) = length (questions t)
            \<and> ((k < 0 \<or> int (length (questions t)) \<le> k) \<longrightarrow> get_current_question c' = None)"
proof -
  obtain m where m: "saved_questions_map sqs = Some m"
    using saved_questions_map_total[OF texts] by blast
  let ?c0 = "c\<lparr>test := t, test_file := Some path,
               progress_file := Some (splitext_root (basename path) @ ''.progress.json'')\<rparr>"
  have load: "load_new_test_from_file b64decode files fs True c path =
                Inr (check_and_load_progress fs True ?c0, True)"
    using dec by (simp add: load_new_test_from_file_def)
  have res: "check_and_load_progress fs True ?c0 =
           ?c0\<lparr>test := (test ?c0)
             \<lparr>questions := map (\<lambda>q_obj. case m (q_text q_obj) of
                                           Some d \<Rightarrow> from_dict q_obj d | None \<Rightarrow> q_obj)
                                (questions (test ?c0)),
              current_question_index :=
                (case pd_current_question_index pd of Some i \<Rightarrow> i | None \<Rightarrow> 0)\<rparr>\<rparr>"
    by (rule check_and_load_progress_resume
          [where pf = "splitext_root (basename path) @ ''.progress.json''" and sqs = sqs])
       (simp_all add: stored qs m)
  show ?thesis
    unfolding load res using k by (auto simp: get_current_question_def)
qed

theorem resume_cursor_unchecked_witness:
  "\<exists>c'. load_new_test_from_file (\<lambda>s. None) [''bank.xml'' \<mapsto> Document sample_bank]
           [''bank.progress.json'' \<mapsto>
              Json \<lparr>pd_current_question_index = Some 5,
                    pd_questions = Some [to_dict capital_question]\<rparr>]
           True new_TestController ''bank.xml'' = Inr (c', True)
        \<and> current_question_index (test c') = 5
        \<and> length (questions (test c')) = 1
        \<and> get_current_question c' = None"
proof -
  have dec: "decode (\<lambda>s. None) ([''bank.xml'' \<mapsto> Document sample_bank] ''bank.xml'') =
               Inr (Loaded \<lparr>questions = [capital_question], current_question_index = 0,
                            title = ''Geography''\<rparr>)"
    by code_simp
  have name: "splitext_root (basename ''bank.xml'') @ ''.progress.json'' = ''bank.progress.json''"
    by code_simp
  have stored: "[''bank.progress.json'' \<mapsto>
              Json \<lparr>pd_current_question_index = Some 5,
                    pd_questions = Some [to_dict capital_question]\<rparr>]
              (splitext_root (basename ''bank.xml'') @ ''.progress.json'') =
             Some (Json \<lparr>pd_current_question_index = Some 5,
                          pd_questions = Some [to_dict capital_question]\<rparr>)"
    unfolding name by simp
  have texts: "list_all (\<lambda>s. sq_text s \<noteq> None) [to_dict capital_question]"
    by (simp add: to_dict_def)
  note inst = resume_cursor_unchecked
    [where b64decode = "\<lambda>s. None" and files = "[''bank.xml'' \<mapsto> Document sample_bank]"
       and path = "''bank.xml''" and c = new_TestController and k = 5
       and sqs = "[to_dict capital_question]"
       and pd = "\<lparr>pd_current_question_index = Some 5,
                   pd_questions = Some [to_dict capital_question]\<rparr>"
       and fs = "[''bank.progress.json'' \<mapsto>
              Json \<lparr>pd_current_question_index = Some 5,
                    pd_questions = Some [to_dict capital_question]\<rparr>]"
       and t = "\<lparr>questions = [capital_question], current_question_index = 0,
                            title = ''Geography''\<rparr>"]
  show ?thesis
    using inst[OF dec stored _ texts] by simp
qed

lemma find_append:
  "List.find P (xs @ ys) = (case List.find P xs of Some x \<Rightarrow> Some x | None \<Rightarrow> List.find P ys)"
  by (induction xs) auto

lemma saved_questions_map_to_dict:
  "saved_questions_map (map to_dict qs) =
     Some (\<lambda>t. map_option to_dict (List.find (\<lambda>q. q_text q = t) (rev qs)))"
proof (induction qs)
  case Nil
  show ?case by simp
next
  case (Cons q qs)
  have key: "sq_text (to_dict q) = Some (q_text q)" by (simp add: to_dict_def)
  show ?case
    by (auto simp: Cons.IH key find_append fun_eq_iff split: option.splits)
qed

lemma case_map_option:
  "(case map_option f x of None \<Rightarrow> a | Some d \<Rightarrow> g d) =
   (case x of None \<Rightarrow> a | Some q \<Rightarrow> g (f q))"
  by (cases x) simp_all

lemma find_rev_distinct:
  assumes "distinct (map q_text qs)" and "q \<in> set qs"
  shows "List.find (\<lambda>x. q_text x = q_text q) (rev qs) = Some q"
proof -
  obtain x where x: "List.find (\<lambda>x. q_text x = q_text q) (rev qs) = Some x"
    using assms(2) by (cases "List.find (\<lambda>x. q_text x = q_text q) (rev qs)")
      (auto simp: find_None_iff)
  then obtain i where "i < length (rev qs)" and "x = rev qs ! i" and same: "q_text x = q_text q"
    by (auto simp: find_Some_iff)
  then have "x \<in> set (rev qs)"
    using nth_mem by blast
  then have "x \<in> set qs" by simp
  note this same
  with assms have "x = q"
    by (meson distinct_map inj_onD)
  with x show ?thesis by simp
qed

lemma resume_after_save:
  assumes "progress_file c = Some pf" and "pf \<noteq> []" and "progress_file c' = Some pf"
  shows "check_and_load_progress (save_progress c fs) True c' =
           c'\<lparr>test := (test c')
             \<lparr>questions :=
                map (\<lambda>live. case List.find (\<lambda>q. q_text q = q_text live) (rev (questions (test c))) of
                               Some q \<Rightarrow> from_dict live (to_dict q)
                             | None \<Rightarrow> live)
                    (questions (test c')),
              current_question_index := current_question_index (test c)\<rparr>\<rparr>"
proof -
  let ?pd = "\<lparr>pd_current_question_index = Some (current_question_index (test c)),
              pd_questions = Some (map to_dict (questions (test c)))\<rparr>"
  have stored: "save_progress c fs pf = Some (Json ?pd)"
    using assms by (simp add: save_progress_def)
  have step: "check_and_load_progress (save_progress c fs) True c' =
          c'\<lparr>test := (test c')
             \<lparr>questions := map (\<lambda>q_obj. case (\<lambda>t. map_option to_dict
                                   (List.find (\<lambda>q. q_text q = t) (rev (questions (test c))))) (q_text q_obj) of
                                           Some d \<Rightarrow> from_dict q_obj d | None \<Rightarrow> q_obj)
                                (questions (test c')),
              current_question_index :=
                (case pd_current_question_index ?pd of Some i \<Rightarrow> i | None \<Rightarrow> 0)\<rparr>\<rparr>"
    by (rule check_and_load_progress_resume[where pf = pf and sqs = "map to_dict (questions (test c))"])
       (simp_all add: assms stored saved_questions_map_to_dict)
  show ?thesis
    unfolding step case_map_option by simp
qed

lemma from_dict_to_dict:
  "from_dict live (to_dict q) =
     live\<lparr>user_answer_indices := user_answer_indices q, user_input := user_input q,
          is_answered := is_answered q, is_correct := is_correct q\<rparr>"
  by (simp add: from_dict_def to_dict_def)

text \<open>
  Claim C5, as amended. Let the question texts of the saved test be pairwise distinct.
  Saving its progress and resuming onto a controller with the same progress file keeps
  the live questions in number and order and restores the saved cursor; a live question
  whose text is that of a saved question gets that question's four answer fields and
  keeps its own text, kind, options, correct indices and image; a live question whose
  text no saved question has is unchanged. Saved entries without a live question of
  their text leave no trace.
\<close>

theorem resume_restores_saved_state:
  assumes pf: "progress_file c = Some pf" "pf \<noteq> []" "progress_file c' = Some pf"
    and dist: "distinct (map q_text (questions (test c)))"
  shows "length (questions (test (check_and_load_progress (save_progress c fs) True c'))) =
           length (questions (test c'))
       \<and> current_question_index (test (check_and_load_progress (save_progress c fs) True c')) =
           current_question_index (test c)
       \<and> (\<forall>i < length (questions (test c')).
            (\<forall>q \<in> set (questions (test c)).
                q_text q = q_text (questions (test c') ! i) \<longrightarrow>
                questions (test (check_and_load_progress (save_progress c fs) True c')) ! i =
                  (questions (test c') ! i)
                    \<lparr>user_answer_indices := user_answer_indices q, user_input := user_input q,
                     is_answered := is_answered q, is_correct := is_correct q\<rparr>)
          \<and> (q_text (questions (test c') ! i) \<notin> q_text ` set (questions (test c)) \<longrightarrow>
                questions (test (check_and_load_progress (save_progress c fs) True c')) ! i =
                  questions (test c') ! i))"
proof -
  note r = resume_after_save[OF pf, of fs]
  have matched: "\<And>q live. q \<in> set (questions (test c)) \<Longrightarrow> q_text q = q_text live \<Longrightarrow>
      List.find (\<lambda>x. q_text x = q_text live) (rev (questions (test c))) = Some q"
    using find_rev_distinct[OF dist] by metis
  have unmatched: "\<And>live. q_text live \<notin> q_text ` set (questions (test c)) \<Longrightarrow>
      List.find (\<lambda>x. q_text x = q_text live) (rev (questions (test c))) = None"
    by (force simp: find_None_iff image_iff)
  show ?thesis
    unfolding r by (simp add: matched unmatched from_dict_to_dict)
qed


theorem resume_restores_saved_state_witness:
  "progress_file (controller_of [answered_capital] 0) = Some ''bank.progress.json''
   \<and> distinct (map q_text (questions (test (controller_of [answered_capital] 0))))
   \<and> questions (test (check_and_load_progress
         (save_progress (controller_of [answered_capital] 0) Map.empty) True
         (controller_of [capital_question, order_question] 0))) ! 0 = answered_capital
   \<and> questions (test (check_and_load_progress
         (save_progress (controller_of [answered_capital] 0) Map.empty) True
         (controller_of [capital_question, order_question] 0))) ! 1 = order_question"
proof -
  have pf: "progress_file (controller_of [answered_capital] 0) = Some ''bank.progress.json''"
    "''bank.progress.json'' \<noteq> []"
    "progress_file (controller_of [capital_question, order_question] 0) = Some ''bank.progress.json''"
    by (simp_all add: controller_of_def)
  have dist: "distinct (map q_text (questions (test (controller_of [answered_capital] 0))))"
    by (simp add: controller_of_def)
  note th = resume_restores_saved_state[OF pf dist, of Map.empty]
  have live: "questions (test (controller_of [capital_question, order_question] 0)) =
                [capital_question, order_question]"
    and saved: "questions (test (controller_of [answered_capital] 0)) = [answered_capital]"
    by (simp_all add: controller_of_def)
  have texts: "q_text answered_capital = q_text capital_question"
    "q_text order_question \<noteq> q_text capital_question"
    by (simp_all add: answered_capital_def capital_question_def order_question_def Question_def)
  have upd: "capital_question
               \<lparr>user_answer_indices := user_answer_indices answered_capital,
                user_input := user_input answered_capital,
                is_answered := is_answered answered_capital,
                is_correct := is_correct answered_capital\<rparr> = answered_capital"
    by (simp add: answered_capital_def)
  have i0: "questions (test (check_and_load_progress
         (save_progress (controller_of [answered_capital] 0) Map.empty) True
         (controller_of [capital_question, order_question] 0))) ! 0 = answered_capital"
    using th[THEN conjunct2, THEN conjunct2, rule_format, of 0, THEN conjunct1, rule_format,
             of answered_capital]
    by (simp add: live saved texts upd)
  have i1: "questions (test (check_and_load_progress
         (save_progress (controller_of [answered_capital] 0) Map.empty) True
         (controller_of [capital_question, order_question] 0))) ! 1 = order_question"
    using th[THEN conjunct2, THEN conjunct2, rule_format, of 1, THEN conjunct2, rule_format]
    by (simp add: live saved texts)
  show ?thesis using pf(1) dist i0 i1 by blast
qed

text \<open>
  The claim as written, for any test, fails when two questions of the saved test share
  their text: the map built from the snapshot keeps the last entry of a text, so the
  first question, saved as answered, comes back with the unanswered state of the second.
\<close>

theorem resume_duplicate_text_counterexample:
  "map q_text (questions (test (controller_of [answered_capital, capital_question] 0))) =
     map q_text (questions (test (controller_of [capital_question, capital_question] 0)))
   \<and> answer_state (questions (test (controller_of [answered_capital, capital_question] 0)) ! 0) =
       ([0], [0], True, Some True)
   \<and> answer_state (questions (test (check_and_load_progress
         (save_progress (controller_of [answered_capital, capital_question] 0) Map.empty) True
         (controller_of [capital_question, capital_question] 0))) ! 0) =
       ([], [], False, None)"
  by (simp add: check_and_load_progress_def save_progress_def controller_of_def to_dict_def
        from_dict_def answer_state_def answered_capital_def capital_question_def Question_def)

section \<open>Properties of the bank decoder\<close>

subsection \<open>Choice questions\<close>

lemma py_enumerate_conv:
  "py_enumerate xs = map (\<lambda>i. (int i, xs ! i)) [0..<length xs]"
  by (rule nth_equalityI) (simp_all add: py_enumerate_def)




subsection \<open>Ordering questions\<close>

lemma wrap2_concat:
  "\<forall>g \<in> set groups. length g = 2 \<Longrightarrow> wrap2 (concat groups) = groups"
proof (induction groups)
  case Nil
  show ?case by simp
next
  case (Cons g groups)
  then obtain a b where g: "g = [a, b]"
    by (cases g rule: wrap2.cases) auto
  with Cons show ?case by simp
qed

lemma isdigit_plain:
  assumes "isdigit ch"
  shows "\<not> isspace ch" and "ch \<noteq> CHR ''+''" and "ch \<noteq> CHR ''-''"
  using assms by (auto simp: isdigit_def isspace_def)

lemma py_int_two_digits:
  assumes "length g = 2" and "list_all isdigit g"
  shows "py_int g = Inr (decimal g)"
proof -
  from assms obtain a b where g: "g = [a, b]" and a: "isdigit a" and b: "isdigit b"
    by (cases g rule: wrap2.cases) auto
  have "strip g = g"
    using isdigit_plain(1)[OF a] isdigit_plain(1)[OF b] by (simp add: strip_def g)
  then show ?thesis
    using a b isdigit_plain(2,3)[OF a] by (simp add: py_int_def g)
qed

lemma answer_positions_digits:
  "\<forall>g \<in> set groups. length g = 2 \<and> list_all isdigit g \<Longrightarrow>
   answer_positions n groups =
     Inr (map (\<lambda>g. if g = ''00'' then int n else decimal g) groups)"
  by (induction groups) (auto simp: py_int_two_digits)

lemma enumerate_in_range:
  "length ps = n \<Longrightarrow>
   map (\<lambda>(i, pos). (pos, i)) (filter (\<lambda>(i, pos). i < int n) (py_enumerate ps)) =
     zip ps (map int [0..<n])"
  by (rule nth_equalityI) (auto simp: py_enumerate_conv filter_map comp_def)

lemma decode_ordering_groups:
  assumes "\<forall>g \<in> set groups. length g = 2 \<and> list_all isdigit g"
    and "length groups = length opts"
    and "opts = (if length options0 = 1 \<and> CHR '' '' \<in> set (options0 ! 0)
                 then split_ws (options0 ! 0) else options0)"
  shows "decode_ordering options0 (Some (concat groups)) =
           Inr (opts, map snd (sort (zip (map (\<lambda>g. if g = ''00'' then int (length opts) else decimal g) groups)
                                         (map int [0..<length opts]))))"
proof -
  have w: "wrap2 (concat groups) = groups"
    using assms(1) by (simp add: wrap2_concat)
  show ?thesis
    unfolding decode_ordering_def Let_def assms(3)[symmetric]
    using answer_positions_digits[OF assms(1), of "length opts"] assms(2)
    by (simp add: enumerate_in_range w)
qed

lemma sort_pairs_by_position:
  fixes ps :: "int list"
  assumes "length ps = n"
  defines "res \<equiv> map snd (sort (zip ps (map int [0..<n])))"
  shows "mset res = mset (map int [0..<n])"
    and "sorted_wrt (\<lambda>i j. ps ! nat i < ps ! nat j \<or> (ps ! nat i = ps ! nat j \<and> i < j)) res"
proof -
  let ?xs = "zip ps (map int [0..<n])"
  have "mset (map snd (sort ?xs)) = mset (map snd ?xs)"
    by (metis mset_sort mset_map)
  then show "mset res = mset (map int [0..<n])"
    using assms(1) by (simp add: res_def)
  have d: "distinct ?xs"
    by (rule distinct_zipI2) (simp add: distinct_map inj_on_def)
  have s: "sorted_wrt (<) (sort ?xs)"
    using d by (simp add: strict_sorted_iff)
  have el: "\<And>p i. (p, i) \<in> set ?xs \<Longrightarrow> p = ps ! nat i"
    using assms(1) by (auto simp: set_zip)
  have "sorted_wrt (\<lambda>x y. ps ! nat (snd x) < ps ! nat (snd y)
           \<or> (ps ! nat (snd x) = ps ! nat (snd y) \<and> snd x < snd y)) (sort ?xs)"
    by (rule sorted_wrt_mono_rel[OF _ s]) (auto dest!: el simp: less_prod_def')
  then show "sorted_wrt (\<lambda>i j. ps ! nat i < ps ! nat j \<or> (ps ! nat i = ps ! nat j \<and> i < j)) res"
    by (simp add: res_def sorted_wrt_map)
qed

lemma last_sort_greatest:
  fixes x :: "'a::linorder"
  assumes "x \<in> set xs" and "\<forall>y \<in> set xs. y \<le> x"
  shows "last (sort xs) = x"
proof -
  have ne: "sort xs \<noteq> []" using assms(1) by (metis empty_iff set_empty set_sort)
  then have "last (sort xs) \<in> set xs" by (metis last_in_set set_sort)
  then have le: "last (sort xs) \<le> x" using assms(2) by blast
  have "x \<in> set (sort xs)" using assms(1) by simp
  then obtain i where i: "i < length (sort xs)" "sort xs ! i = x"
    by (meson in_set_conv_nth)
  have "sort xs ! i \<le> sort xs ! (length (sort xs) - 1)"
    by (rule sorted_nth_mono) (use i in simp_all)
  then have "x \<le> last (sort xs)"
    using i(2) ne by (simp add: last_conv_nth)
  with le show ?thesis by simp
qed


lemma last_sorted_pairs:
  fixes ps :: "int list"
  assumes len: "length ps = n" and k: "k < n" and top: "ps ! k = int n"
    and rest: "\<forall>j < n. j \<noteq> k \<longrightarrow> ps ! j < int n"
  shows "last (map snd (sort (zip ps (map int [0..<n])))) = int k"
proof -
  let ?xs = "zip ps (map int [0..<n])"
  have mem: "(int n, int k) \<in> set ?xs"
    using len k top by (force simp: set_zip)
  have ub: "\<forall>y \<in> set ?xs. y \<le> (int n, int k)"
  proof
    fix y assume "y \<in> set ?xs"
    then obtain j where j: "j < n" and y: "y = (ps ! j, int j)"
      using len by (auto simp: set_zip)
    show "y \<le> (int n, int k)"
    proof (cases "j = k")
      case True
      with y top show ?thesis by simp
    next
      case False
      with rest j have "ps ! j < int n" by blast
      with y show ?thesis by simp
    qed
  qed
  have l: "last (sort ?xs) = (int n, int k)"
    by (rule last_sort_greatest[OF mem ub])
  have "sort ?xs \<noteq> []"
    using mem by (metis empty_iff set_empty set_sort)
  then show ?thesis
    by (simp add: last_map l)
qed

text \<open>
  Claim C1. For a question node with type code \<^verbatim>\<open>6\<close>, a prompt, \<open>N\<close> decoded options
  (after the re-split of a single blank-separated option) and an answer string made of
  \<open>N\<close> groups of two digits: every group is read as its decimal number, except \<^verbatim>\<open>00\<close>,
  which is given the position \<open>N\<close>. For \<open>N > 0\<close> the node yields an Ordering question
  whose correct indices are the option indices sorted by (position, index): a permutation
  of \<open>0, \<dots>, N - 1\<close> in which an index comes before another exactly when its position is
  smaller, or equal with the smaller index. When one group is \<^verbatim>\<open>00\<close> and every other
  position is below \<open>N\<close>, its index comes last. For \<open>N = 0\<close> the node yields no question.
\<close>

theorem ordering_node_decoded:
  assumes "el_find node ''t'' = Some tn" and "el_text tn = Some ''6''"
    and "el_find node ''p'' = Some pn"
    and "el_find node ''c'' = Some cn" and "el_text cn = Some (concat groups)"
    and groups: "\<forall>g \<in> set groups. length g = 2 \<and> list_all isdigit g"
    and opts: "opts =
      (let options0 = map (\<lambda>opt. case el_text opt of Some s \<Rightarrow> strip s | None \<Rightarrow> [])
                          (el_findall_desc node ''r'' ''o'')
       in if length options0 = 1 \<and> CHR '' '' \<in> set (options0 ! 0)
          then split_ws (options0 ! 0) else options0)"
    and len: "length groups = length opts"
    and pos: "pos = map (\<lambda>g. if g = ''00'' then int (length opts) else decimal g) groups"
  shows "(opts \<noteq> [] \<longrightarrow>
           (\<exists>q. decode_question_node images_data node = Inr (Some q)
              \<and> q_type q = Ordering
              \<and> options q = opts
              \<and> correct_indices q = map snd (sort (zip pos (map int [0..<length opts])))
              \<and> mset (correct_indices q) = mset (map int [0..<length opts])
              \<and> sorted_wrt (\<lambda>i j. pos ! nat i < pos ! nat j
                                  \<or> (pos ! nat i = pos ! nat j \<and> i < j)) (correct_indices q)
              \<and> (\<forall>k < length opts.
                    groups ! k = ''00'' \<and> (\<forall>j < length opts. j \<noteq> k \<longrightarrow> pos ! j < int (length opts))
                    \<longrightarrow> last (correct_indices q) = int k)))
       \<and> (opts = [] \<longrightarrow> decode_question_node images_data node = Inr None)"
proof -
  let ?options0 = "map (\<lambda>opt. case el_text opt of Some s \<Rightarrow> strip s | None \<Rightarrow> [])
                       (el_findall_desc node ''r'' ''o'')"
  let ?corr = "map snd (sort (zip pos (map int [0..<length opts])))"
  have opts': "opts = (if length ?options0 = 1 \<and> CHR '' '' \<in> set (?options0 ! 0)
                       then split_ws (?options0 ! 0) else ?options0)"
    using opts by (simp add: Let_def)
  have dec: "decode_ordering ?options0 (Some (concat groups)) = Inr (opts, ?corr)"
    unfolding pos by (rule decode_ordering_groups[OF groups len opts'])
  have plen: "length pos = length opts"
    using len by (simp add: pos)
  have perm: "mset ?corr = mset (map int [0..<length opts])"
    and srt: "sorted_wrt (\<lambda>i j. pos ! nat i < pos ! nat j
                                  \<or> (pos ! nat i = pos ! nat j \<and> i < j)) ?corr"
    using sort_pairs_by_position[OF plen] by simp_all
  have "length ?corr = length opts"
    using plen by simp
  then have ne: "opts \<noteq> [] \<Longrightarrow> ?corr \<noteq> []"
    by (metis length_0_conv)
  have lst: "\<forall>k < length opts.
      groups ! k = ''00'' \<and> (\<forall>j < length opts. j \<noteq> k \<longrightarrow> pos ! j < int (length opts))
      \<longrightarrow> last ?corr = int k"
  proof (intro allI impI)
    fix k assume k: "k < length opts"
      and h: "groups ! k = ''00'' \<and> (\<forall>j < length opts. j \<noteq> k \<longrightarrow> pos ! j < int (length opts))"
    have "pos ! k = int (length opts)"
      using k len h by (simp add: pos)
    then show "last ?corr = int k"
      using last_sorted_pairs[OF plen k] h by blast
  qed
  have res: "decode_question_node images_data node =
      Inr (if opts \<noteq> [] \<and> ?corr \<noteq> []
           then Some (Question (strip (itertext pn)) Ordering opts ?corr
                  (case (case el_find node ''b'' of
                            Some img_ref_node \<Rightarrow> el_get img_ref_node ''p'' | None \<Rightarrow> None) of
                    Some r \<Rightarrow> if r \<noteq> [] then images_data r else None
                  | None \<Rightarrow> None))
           else None)"
    using assms(1-5) by (simp add: decode_question_node_def Let_def dec)
  show ?thesis
    unfolding res using perm srt lst ne by (auto simp: Question_def)
qed

theorem ordering_node_decoded_witness:
  "\<exists>q. decode_question_node Map.empty
          (question_node ''6'' ''Put in order'' [''A'', ''B'', ''C''] ''020100'') = Inr (Some q)
       \<and> q_type q = Ordering
       \<and> options q = [''A'', ''B'', ''C'']
       \<and> correct_indices q = [1, 0, 2]
       \<and> last (correct_indices q) = 2"
proof -
  let ?node = "question_node ''6'' ''Put in order'' [''A'', ''B'', ''C''] ''020100''"
  have t: "el_find ?node ''t'' = Some (leaf ''t'' ''6'')"
    and tt: "el_text (leaf ''t'' ''6'') = Some ''6''"
    and p: "el_find ?node ''p'' = Some (leaf ''p'' ''Put in order'')"
    and c: "el_find ?node ''c'' = Some (leaf ''c'' ''020100'')"
    and ct: "el_text (leaf ''c'' ''020100'') = Some (concat [''02'', ''01'', ''00''])"
    by (simp_all add: question_node_def leaf_def el_find_def el_findall_def)
  have groups: "\<forall>g \<in> set [''02'', ''01'', ''00'']. length g = 2 \<and> list_all isdigit g"
    by (simp add: isdigit_def)
  have opts: "[''A'', ''B'', ''C''] =
      (let options0 = map (\<lambda>opt. case el_text opt of Some s \<Rightarrow> strip s | None \<Rightarrow> [])
                          (el_findall_desc ?node ''r'' ''o'')
       in if length options0 = 1 \<and> CHR '' '' \<in> set (options0 ! 0)
          then split_ws (options0 ! 0) else options0)"
    by code_simp
  have len: "length [''02'', ''01'', ''00''] = length [''A'', ''B'', ''C'']"
    by simp
  have pos: "[2, 1, 3] = map (\<lambda>g. if g = ''00'' then int (length [''A'', ''B'', ''C'']) else decimal g)
                            [''02'', ''01'', ''00'']"
    by (simp add: decimal_def)
  have srt: "map snd (sort (zip [2, 1, 3 :: int] (map int [0..<length [''A'', ''B'', ''C'']]))) = [1, 0, 2]"
    by code_simp
  show ?thesis
    using ordering_node_decoded[OF t tt p c ct groups opts len pos, of Map.empty]
    unfolding srt by auto
qed

subsection \<open>Namespaces and the title\<close>

lemma decode_ignores_stripped_tree:
  "decode b64decode (Some (Document doc)) = decode_root b64decode doc"
  by (simp add: decode_def)

lemma decode_without_title:
  "el_find_desc root ''p'' ''t'' = None \<Longrightarrow>
   decode b64decode (Some (Document root)) = Inl AttributeError"
  by (simp add: decode_def decode_root_def)

text \<open>
  Claim C6 does not hold of the code. The sample bank decodes to a test of one question.
  The same bank with every tag in a namespace is what the stripping loop turns back into
  the sample bank, but the decoder reads the tree of the second parse, where the tags
  still carry the namespace: the title lookup finds nothing and \<^verbatim>\<open>.text\<close> raises
  AttributeError, which the handler of the load does not catch.
\<close>

theorem namespaced_bank_not_decoded:
  "decode (\<lambda>s. None) (Some (Document sample_bank)) =
     Inr (Loaded \<lparr>questions = [capital_question], current_question_index = 0,
                  title = ''Geography''\<rparr>)
   \<and> strip_namespaces (qualify ''urn:daypo'' sample_bank) = sample_bank
   \<and> decode (\<lambda>s. None) (Some (Document (qualify ''urn:daypo'' sample_bank))) =
       Inl AttributeError"
  by code_simp

text \<open>
  Claim C9 holds for a title element without text and does not hold for an absent title
  element: with the empty title the test gets the placeholder title, without the element
  \<^verbatim>\<open>root.find('.//p/t')\<close> is \<^verbatim>\<open>None\<close> and \<^verbatim>\<open>.text\<close> raises AttributeError, which the
  handler of the load does not catch.
\<close>

theorem absent_title_not_defaulted:
  "decode (\<lambda>s. None) (Some (Document empty_title_bank)) =
     Inr (Loaded \<lparr>questions = [capital_question], current_question_index = 0,
                  title = ''Practice Test''\<rparr>)
   \<and> el_find_desc untitled_bank ''p'' ''t'' = None
   \<and> decode (\<lambda>s. None) (Some (Document untitled_bank)) = Inl AttributeError"
  by code_simp

subsection \<open>Every decoded question has options and correct indices\<close>

lemma decode_question_node_nonempty:
  "decode_question_node images_data node = Inr (Some q) \<Longrightarrow>
   options q \<noteq> [] \<and> correct_indices q \<noteq> []"
  by (auto simp: decode_question_node_def Let_def Question_def
      split: option.splits sum.splits if_splits prod.splits)

lemma decode_question_nodes_nonempty:
  "decode_question_nodes images_data nodes = Inr qs \<Longrightarrow>
   \<forall>q \<in> set qs. options q \<noteq> [] \<and> correct_indices q \<noteq> []"
proof (induction nodes arbitrary: qs)
  case Nil
  then show ?case by simp
next
  case (Cons node nodes)
  then show ?case
    by (auto split: sum.splits option.splits dest: decode_question_node_nonempty)
qed

end
